theory Spec2Isabelle
  imports Main "HOL-Library.Signed_Division"
begin

section \<open>Temporary directories and files: a model of tempfile.cpp\<close>

text \<open>
  The model follows \<^verbatim>\<open>src/src/tempfile.cpp\<close> and \<^verbatim>\<open>src/include/tempfile/tempfile.hpp\<close>
  in the \<^verbatim>\<open>_WIN32\<close> configuration. The other configuration does not name a program:
  the loop over \<^verbatim>\<open>{"/tmp", "/var/tmp", "/usr/tmp"}\<close> in \<^verbatim>\<open>paths_to_try\<close> pushes an
  identifier \<^verbatim>\<open>path\<close> that is not in scope there.

  What the library calls but does not define is a parameter of the model:
  \<^item> \<^verbatim>\<open>std::rand()\<close> is a sequence of naturals read at a position;
  \<^item> \<^verbatim>\<open>std::getenv\<close> is a partial map from variable names to values;
  \<^item> \<^verbatim>\<open>std::filesystem\<close> is a record of operations over a state of any type, each of
    which may throw \<^verbatim>\<open>filesystem_error\<close>;
  \<^item> \<^verbatim>\<open>MAX_PATH\<close> of \<^verbatim>\<open>windows.h\<close> is a natural number given to \<^verbatim>\<open>create\<close>.
  The mutex is not modelled: every call runs alone.
\<close>

subsection \<open>The random source\<close>

record rand_source =
  rand_seq :: "nat \<Rightarrow> nat"
  rand_pos :: nat

text \<open>\<^verbatim>\<open>std::rand()\<close>: the next value of the sequence, never negative.\<close>

definition std_rand :: "rand_source \<Rightarrow> nat \<times> rand_source" where
  "std_rand g = (rand_seq g (rand_pos g), g\<lparr>rand_pos := Suc (rand_pos g)\<rparr>)"

text \<open>
  \<^verbatim>\<open>return _min + (std::rand() % (_max - _min));\<close> on C++ \<^verbatim>\<open>int\<close>, whose \<^verbatim>\<open>%\<close> truncates
  towards zero. The only call is \<^verbatim>\<open>randrange(0, 36)\<close>, where nothing overflows.
\<close>

definition randrange :: "int \<Rightarrow> int \<Rightarrow> rand_source \<Rightarrow> int \<times> rand_source" where
  "randrange rmin rmax g =
     (case std_rand g of (r, g') \<Rightarrow> (rmin + (int r smod (rmax - rmin)), g'))"

subsection \<open>The name generator\<close>

definition characters :: string where
  "characters = ''abcdefghijklmnopqrstuvwxyz0123456789_''"

text \<open>The loop \<^verbatim>\<open>for (auto i = 0; i < k; ++i) name[i] = characters[randrange(0, 36)];\<close> with \<^verbatim>\<open>k = 8\<close>.\<close>

function random_name_loop :: "nat \<Rightarrow> string \<Rightarrow> rand_source \<Rightarrow> string \<times> rand_source" where
  "random_name_loop i name g =
     (if i < 8 then
        (case randrange 0 36 g of (j, g') \<Rightarrow>
           random_name_loop (Suc i) (name[i := characters ! nat j]) g')
      else (name, g))"
  by pat_completeness auto
termination
  by (relation "measure (\<lambda>(i, name, g). 8 - i)") auto

declare random_name_loop.simps [simp del]

text \<open>\<^verbatim>\<open>name.resize(k)\<close> gives eight zero characters, which the loop overwrites.\<close>

definition random_name :: "rand_source \<Rightarrow> string \<times> rand_source" where
  "random_name g = random_name_loop 0 (replicate 8 (CHR 0x00)) g"

subsection \<open>The candidate base paths\<close>

type_synonym path_t = string

type_synonym environ = "string \<Rightarrow> string option"

definition path_separator :: string where
  "path_separator = [CHR 0x5C]"

text \<open>
  The first loop of \<^verbatim>\<open>paths_to_try\<close>: \<^verbatim>\<open>std::getenv\<close> of each variable, pushed when it is
  not the null pointer.
\<close>

fun getenv_loop :: "environ \<Rightarrow> string list \<Rightarrow> path_t list \<Rightarrow> path_t list" where
  "getenv_loop env [] paths = paths"
| "getenv_loop env (var # vars) paths =
     (case env var of
        None \<Rightarrow> getenv_loop env vars paths
      | Some path \<Rightarrow> getenv_loop env vars (paths @ [path]))"

definition paths_to_try :: "environ \<Rightarrow> path_t list" where
  "paths_to_try env =
     (let paths = getenv_loop env [''TEMP'', ''TMP'', ''TMPDIR''] [];
          paths = (case env ''SYSTEMROOT'' of
                     None \<Rightarrow> paths
                   | Some root_path \<Rightarrow> paths @ [root_path @ CHR 0x5C # ''Temp'']);
          paths = (case env ''USERPROFILE'' of
                     None \<Rightarrow> paths
                   | Some userdata_path \<Rightarrow>
                       paths @ [userdata_path @ CHR 0x5C # ''AppData'' @ CHR 0x5C # ''Local''
                                  @ CHR 0x5C # ''Temp'']);
          paths = paths @ [''c:'' @ CHR 0x5C # ''temp''];
          paths = paths @ [''c:'' @ CHR 0x5C # ''tmp''];
          paths = (case env ''CD'' of
                     None \<Rightarrow> paths
                   | Some cwdpath \<Rightarrow> paths @ [cwdpath])
      in paths)"

subsection \<open>The filesystem the library consumes\<close>

datatype fs_error = filesystem_error

text \<open>
  The calls of \<^verbatim>\<open>std::filesystem\<close> the source makes, over a state \<open>'w\<close> of the filesystem.
  A call returns \<open>Inl filesystem_error\<close> where the C++ call throws. The queries leave the
  state as it is. \<open>directory_iterator\<close> lists the entries of a directory, each with the
  answer of its \<^verbatim>\<open>is_regular_file()\<close>; \<open>remove_all\<close> returns the number of entries it removed.
\<close>

record 'w filesystem =
  create_directory :: "path_t \<Rightarrow> 'w \<Rightarrow> (fs_error + bool) \<times> 'w"
  is_directory :: "path_t \<Rightarrow> 'w \<Rightarrow> fs_error + bool"
  exists_path :: "path_t \<Rightarrow> 'w \<Rightarrow> fs_error + bool"
  directory_iterator :: "path_t \<Rightarrow> 'w \<Rightarrow> fs_error + (path_t \<times> bool) list"
  remove_path :: "path_t \<Rightarrow> 'w \<Rightarrow> (fs_error + bool) \<times> 'w"
  remove_all :: "path_t \<Rightarrow> 'w \<Rightarrow> (fs_error + nat) \<times> 'w"

definition make_directory :: "'w filesystem \<Rightarrow> path_t \<Rightarrow> 'w \<Rightarrow> (fs_error + bool) \<times> 'w" where
  "make_directory F path w = create_directory F path w"

definition directory_exists :: "'w filesystem \<Rightarrow> path_t \<Rightarrow> 'w \<Rightarrow> fs_error + bool" where
  "directory_exists F path w = is_directory F path w"

definition file_exists :: "'w filesystem \<Rightarrow> path_t \<Rightarrow> 'w \<Rightarrow> fs_error + bool" where
  "file_exists F path w = exists_path F path w"

definition get_files_in_directory :: "'w filesystem \<Rightarrow> path_t \<Rightarrow> 'w \<Rightarrow> fs_error + path_t list" where
  "get_files_in_directory F path w =
     (case directory_iterator F path w of
        Inl e \<Rightarrow> Inl e
      | Inr entries \<Rightarrow> Inr (map fst (filter snd entries)))"

definition remove_file :: "'w filesystem \<Rightarrow> path_t \<Rightarrow> 'w \<Rightarrow> (fs_error + bool) \<times> 'w" where
  "remove_file F path w = remove_path F path w"

text \<open>\<^verbatim>\<open>return std::filesystem::remove_all(path);\<close> converts the count to \<^verbatim>\<open>bool\<close>.\<close>

definition remove_directory :: "'w filesystem \<Rightarrow> path_t \<Rightarrow> 'w \<Rightarrow> (fs_error + bool) \<times> 'w" where
  "remove_directory F path w =
     (case remove_all F path w of
        (Inl e, w') \<Rightarrow> (Inl e, w')
      | (Inr n, w') \<Rightarrow> (Inr (n \<noteq> 0), w'))"

subsection \<open>The directory handle\<close>

text \<open>The members \<^verbatim>\<open>_good\<close>, \<^verbatim>\<open>_prefix\<close> and \<^verbatim>\<open>_path\<close> of \<^verbatim>\<open>struct directory\<close>.\<close>

record directory =
  d_good :: bool
  d_prefix :: string
  d_path :: path_t

definition directory_ctor :: "string \<Rightarrow> directory" where
  "directory_ctor prefix = \<lparr>d_good = False, d_prefix = prefix, d_path = []\<rparr>"

text \<open>
  The inner loop of \<^verbatim>\<open>create\<close>, \<^verbatim>\<open>for (auto itry = 0; itry < 100; ++itry)\<close>, for one base
  path. \<open>Inr (Some p)\<close>: the directory \<open>p\<close> was made; \<open>Inr None\<close>: the loop ran out;
  \<open>Inl e\<close>: a filesystem call threw. \<open>mp\<close> is \<^verbatim>\<open>max_path_length\<close>.
\<close>

function create_tries ::
  "'w filesystem \<Rightarrow> nat \<Rightarrow> string \<Rightarrow> path_t \<Rightarrow> nat \<Rightarrow> 'w \<Rightarrow> rand_source
     \<Rightarrow> (fs_error + path_t option) \<times> 'w \<times> rand_source" where
  "create_tries F mp prefix path itry w g =
     (if itry < 100 then
        (case random_name g of (random_string, g') \<Rightarrow>
           if length path + length path_separator + length prefix + length random_string + 1 > mp
           then create_tries F mp prefix path (Suc itry) w g'
           else
             (let path_to_try = path @ path_separator @ prefix @ random_string in
              case directory_exists F path_to_try w of
                Inl e \<Rightarrow> (Inl e, w, g')
              | Inr True \<Rightarrow> create_tries F mp prefix path (Suc itry) w g'
              | Inr False \<Rightarrow>
                  (case make_directory F path_to_try w of
                     (Inl e, w') \<Rightarrow> (Inl e, w', g')
                   | (Inr True, w') \<Rightarrow> (Inr (Some path_to_try), w', g')
                   | (Inr False, w') \<Rightarrow> create_tries F mp prefix path (Suc itry) w' g')))
      else (Inr None, w, g))"
  by pat_completeness auto
termination
  by (relation "measure (\<lambda>(F, mp, prefix, path, itry, w, g). 100 - itry)") auto

declare create_tries.simps [simp del]

text \<open>The outer loop, \<^verbatim>\<open>for (auto const & path : paths)\<close>.\<close>

fun create_paths ::
  "'w filesystem \<Rightarrow> nat \<Rightarrow> string \<Rightarrow> path_t list \<Rightarrow> 'w \<Rightarrow> rand_source
     \<Rightarrow> (fs_error + path_t option) \<times> 'w \<times> rand_source" where
  "create_paths F mp prefix [] w g = (Inr None, w, g)"
| "create_paths F mp prefix (path # paths) w g =
     (case create_tries F mp prefix path 0 w g of
        (Inr None, w', g') \<Rightarrow> create_paths F mp prefix paths w' g'
      | (Inr (Some path_to_try), w', g') \<Rightarrow> (Inr (Some path_to_try), w', g')
      | (Inl e, w', g') \<Rightarrow> (Inl e, w', g'))"

text \<open>
  \<^verbatim>\<open>bool directory::create()\<close>. The result is the returned \<^verbatim>\<open>bool\<close> or the exception, with
  the handle, the filesystem and the random source as the call leaves them. \<open>create_in\<close> is
  the part of the body after \<^verbatim>\<open>auto paths = paths_to_try();\<close>, for the list \<open>paths\<close>.
\<close>

definition create_in ::
  "'w filesystem \<Rightarrow> nat \<Rightarrow> path_t list \<Rightarrow> directory \<Rightarrow> 'w \<Rightarrow> rand_source
     \<Rightarrow> (fs_error + bool) \<times> directory \<times> 'w \<times> rand_source" where
  "create_in F mp paths h w g =
     (case create_paths F mp (d_prefix h) paths w g of
        (Inr (Some path_to_try), w', g') \<Rightarrow>
          (Inr True, h\<lparr>d_path := path_to_try, d_good := True\<rparr>, w', g')
      | (Inr None, w', g') \<Rightarrow> (Inr False, h, w', g')
      | (Inl e, w', g') \<Rightarrow> (Inl e, h, w', g'))"

definition create ::
  "'w filesystem \<Rightarrow> nat \<Rightarrow> environ \<Rightarrow> directory \<Rightarrow> 'w \<Rightarrow> rand_source
     \<Rightarrow> (fs_error + bool) \<times> directory \<times> 'w \<times> rand_source" where
  "create F mp env h w g =
     (if d_path h \<noteq> [] \<and> d_good h then (Inr False, h, w, g)
      else create_in F mp (paths_to_try env) h w g)"

text \<open>The loop of \<^verbatim>\<open>remove\<close> over the listed files; the result of \<^verbatim>\<open>remove_file\<close> is dropped.\<close>

fun remove_files :: "'w filesystem \<Rightarrow> path_t list \<Rightarrow> 'w \<Rightarrow> (fs_error + unit) \<times> 'w" where
  "remove_files F [] w = (Inr (), w)"
| "remove_files F (file_path # rest) w =
     (case remove_file F file_path w of
        (Inl e, w') \<Rightarrow> (Inl e, w')
      | (Inr removed, w') \<Rightarrow> remove_files F rest w')"

text \<open>
  \<^verbatim>\<open>bool directory::remove()\<close>. No member is assigned: the handle comes back as it went in.
  The result of \<^verbatim>\<open>remove_directory\<close> is dropped and \<^verbatim>\<open>true\<close> returned.
\<close>

definition remove ::
  "'w filesystem \<Rightarrow> directory \<Rightarrow> 'w \<Rightarrow> (fs_error + bool) \<times> directory \<times> 'w" where
  "remove F h w =
     (if \<not> d_good h then (Inr False, h, w)
      else
        (case directory_exists F (d_path h) w of
           Inl e \<Rightarrow> (Inl e, h, w)
         | Inr False \<Rightarrow> (Inr False, h, w)
         | Inr True \<Rightarrow>
             (case get_files_in_directory F (d_path h) w of
                Inl e \<Rightarrow> (Inl e, h, w)
              | Inr files \<Rightarrow>
                  (case remove_files F files w of
                     (Inl e, w') \<Rightarrow> (Inl e, h, w')
                   | (Inr u, w') \<Rightarrow>
                       (case remove_directory F (d_path h) w' of
                          (Inl e, w'') \<Rightarrow> (Inl e, h, w'')
                        | (Inr removed, w'') \<Rightarrow> (Inr True, h, w''))))))"


subsection \<open>The scoped directory\<close>



subsection \<open>The file handle\<close>

text \<open>\<^verbatim>\<open>struct file\<close>, with its members \<^verbatim>\<open>_good\<close>, \<^verbatim>\<open>_prefix\<close> and \<^verbatim>\<open>_path\<close>.\<close>

record file_handle =
  f_good :: bool
  f_prefix :: string
  f_path :: path_t

definition file_ctor :: "string \<Rightarrow> file_handle" where
  "file_ctor prefix = \<lparr>f_good = False, f_prefix = prefix, f_path = []\<rparr>"

text \<open>\<^verbatim>\<open>file::~file()\<close>: \<^verbatim>\<open>if (_good && file_exists(_path)) remove_file(_path);\<close>\<close>

definition file_dtor :: "'w filesystem \<Rightarrow> file_handle \<Rightarrow> 'w \<Rightarrow> (fs_error + unit) \<times> 'w" where
  "file_dtor F h w =
     (if \<not> f_good h then (Inr (), w)
      else
        (case file_exists F (f_path h) w of
           Inl e \<Rightarrow> (Inl e, w)
         | Inr False \<Rightarrow> (Inr (), w)
         | Inr True \<Rightarrow>
             (case remove_file F (f_path h) w of
                (Inl e, w') \<Rightarrow> (Inl e, w')
              | (Inr removed, w') \<Rightarrow> (Inr (), w'))))"

text \<open>\<^verbatim>\<open>bool file::remove()\<close>.\<close>

definition file_remove :: "'w filesystem \<Rightarrow> file_handle \<Rightarrow> 'w \<Rightarrow> (fs_error + bool) \<times> file_handle \<times> 'w" where
  "file_remove F h w =
     (if \<not> f_good h then (Inr False, h, w)
      else
        (case file_exists F (f_path h) w of
           Inl e \<Rightarrow> (Inl e, h, w)
         | Inr False \<Rightarrow> (Inr False, h, w)
         | Inr True \<Rightarrow>
             (case remove_file F (f_path h) w of
                (Inl e, w') \<Rightarrow> (Inl e, h, w')
              | (Inr removed, w') \<Rightarrow> (Inr True, h, w'))))"

text \<open>\<^verbatim>\<open>scoped_file(prefix) : file(prefix) { }\<close> and \<^verbatim>\<open>~scoped_file() { remove(); }\<close>.\<close>

definition scoped_file_ctor :: "string \<Rightarrow> file_handle" where
  "scoped_file_ctor prefix = file_ctor prefix"

definition scoped_file_dtor :: "'w filesystem \<Rightarrow> file_handle \<Rightarrow> 'w \<Rightarrow> (fs_error + unit) \<times> 'w" where
  "scoped_file_dtor F h w =
     (case file_remove F h w of
        (Inl e, h', w') \<Rightarrow> (Inl e, w')
      | (Inr r, h', w') \<Rightarrow> file_dtor F h' w')"

subsection \<open>Calls on a handle, in any order\<close>

text \<open>
  A caller of a directory handle: \<^verbatim>\<open>create()\<close> under the environment of that moment, or
  \<^verbatim>\<open>remove()\<close>. An exception leaves the handle to the caller, who may go on.
\<close>

datatype directory_call = Create environ | Remove

fun directory_calls ::
  "'w filesystem \<Rightarrow> nat \<Rightarrow> directory_call list \<Rightarrow> directory \<Rightarrow> 'w \<Rightarrow> rand_source
     \<Rightarrow> directory \<times> 'w \<times> rand_source" where
  "directory_calls F mp [] h w g = (h, w, g)"
| "directory_calls F mp (Create env # calls) h w g =
     (case create F mp env h w g of (r, h', w', g') \<Rightarrow> directory_calls F mp calls h' w' g')"
| "directory_calls F mp (Remove # calls) h w g =
     (case remove F h w of (r, h', w') \<Rightarrow> directory_calls F mp calls h' w' g)"

text \<open>A caller of a file handle has \<^verbatim>\<open>remove()\<close> only; the results are collected.\<close>

fun file_removes ::
  "'w filesystem \<Rightarrow> nat \<Rightarrow> file_handle \<Rightarrow> 'w \<Rightarrow> (fs_error + bool) list \<times> file_handle \<times> 'w" where
  "file_removes F 0 h w = ([], h, w)"
| "file_removes F (Suc n) h w =
     (case file_remove F h w of (r, h', w') \<Rightarrow>
        (case file_removes F n h' w' of (rs, h'', w'') \<Rightarrow> (r # rs, h'', w'')))"

subsection \<open>A filesystem to run the model on\<close>

text \<open>
  A small filesystem in memory: the paths that exist, each a directory or a regular file.
  \<open>below p q\<close>: the path \<open>q\<close> lies under the directory \<open>p\<close>; \<open>entry_of p q\<close>: directly.
  Making a directory over a regular file, listing what is no directory, and removing a
  directory that has entries with \<open>remove_path\<close> throw.
\<close>

datatype node = Dir | Reg

type_synonym tree = "(path_t \<times> node) list"

definition below :: "path_t \<Rightarrow> path_t \<Rightarrow> bool" where
  "below p q = (take (Suc (length p)) q = p @ path_separator)"

definition entry_of :: "path_t \<Rightarrow> path_t \<Rightarrow> bool" where
  "entry_of p q =
     (below p q \<and> Suc (length p) < length q \<and> CHR 0x5C \<notin> set (drop (Suc (length p)) q))"

definition mem_fs :: "tree filesystem" where
  "mem_fs =
     \<lparr>create_directory = (\<lambda>p w.
          case map_of w p of
            None \<Rightarrow> (Inr True, (p, Dir) # w)
          | Some Dir \<Rightarrow> (Inr False, w)
          | Some Reg \<Rightarrow> (Inl filesystem_error, w)),
      is_directory = (\<lambda>p w. Inr (map_of w p = Some Dir)),
      exists_path = (\<lambda>p w. Inr (map_of w p \<noteq> None)),
      directory_iterator = (\<lambda>p w.
          if map_of w p = Some Dir
          then Inr (map (\<lambda>(q, k). (q, k = Reg)) (filter (\<lambda>(q, k). entry_of p q) w))
          else Inl filesystem_error),
      remove_path = (\<lambda>p w.
          if map_of w p = None then (Inr False, w)
          else if filter (\<lambda>(q, k). below p q) w \<noteq> [] then (Inl filesystem_error, w)
          else (Inr True, filter (\<lambda>(q, k). q \<noteq> p) w)),
      remove_all = (\<lambda>p w.
          (Inr (length (filter (\<lambda>(q, k). q = p \<or> below p q) w)),
           filter (\<lambda>(q, k). \<not> (q = p \<or> below p q)) w))\<rparr>"


text \<open>The random source that returns \<open>n\<close> on every call, and an environment of one variable.\<close>

definition rand_const :: "nat \<Rightarrow> rand_source" where
  "rand_const n = \<lparr>rand_seq = (\<lambda>i. n), rand_pos = 0\<rparr>"

definition env_one :: "string \<Rightarrow> string \<Rightarrow> environ" where
  "env_one var val = (\<lambda>v. if v = var then Some val else None)"

text \<open>
  A run: \<^verbatim>\<open>TEMP=c:\<close> and nothing else set, the directory \<^verbatim>\<open>c:\<close> alone in the filesystem,
  \<^verbatim>\<open>rand()\<close> returning 0. \<open>tmp_path\<close> is the directory that \<^verbatim>\<open>create\<close> makes there for the
  prefix \<^verbatim>\<open>tmp\<close>, \<open>tmp_handle\<close> the handle it leaves.
\<close>

definition tree0 :: tree where
  "tree0 = [(''c:'', Dir)]"

definition tmp_path :: path_t where
  "tmp_path = ''c:'' @ CHR 0x5C # ''tmpaaaaaaaa''"

definition tmp_handle :: directory where
  "tmp_handle = \<lparr>d_good = True, d_prefix = ''tmp'', d_path = tmp_path\<rparr>"





section \<open>Properties\<close>

subsection \<open>Facts about the name generator and the retry loop\<close>

lemma smod_nat: "int r smod 36 = int (r mod 36)"
  by (cases "r = 0") (simp_all add: smod_int_alt_def zmod_int)

lemma randrange_0_36:
  "randrange 0 36 g = (int (rand_seq g (rand_pos g) mod 36), g\<lparr>rand_pos := Suc (rand_pos g)\<rparr>)"
  by (simp add: randrange_def std_rand_def smod_nat)

lemma replicate_8: "replicate 8 c = [c, c, c, c, c, c, c, c]"
  by (simp add: numeral_eq_Suc)

lemma add_small:
  "n + 3 = Suc (Suc (Suc n))"
  "n + 4 = Suc (Suc (Suc (Suc n)))"
  "n + 5 = Suc (Suc (Suc (Suc (Suc n))))"
  "n + 6 = Suc (Suc (Suc (Suc (Suc (Suc n)))))"
  "n + 7 = Suc (Suc (Suc (Suc (Suc (Suc (Suc n))))))"
  "n + 8 = Suc (Suc (Suc (Suc (Suc (Suc (Suc (Suc n)))))))"
  by simp_all

lemma random_name_eq:
  "random_name g =
     (map (\<lambda>i. characters ! (rand_seq g (rand_pos g + i) mod 36)) [0, 1, 2, 3, 4, 5, 6, 7],
      g\<lparr>rand_pos := rand_pos g + 8\<rparr>)"
  by (simp add: random_name_def random_name_loop.simps randrange_0_36 replicate_8 add_small)

lemma random_name_length: "length (fst (random_name g)) = 8"
  by (simp add: random_name_eq)


lemma random_name_seq: "rand_seq (snd (random_name g)) = rand_seq g"
  by (simp add: random_name_eq)

lemma characters_nth_mod: "characters ! (r mod 36) \<in> set (take 36 characters)"
proof -
  have len: "length (take 36 characters) = 36"
    by (simp add: characters_def)
  have lt: "r mod 36 < length (take 36 characters)"
    unfolding len by simp
  have "take 36 characters ! (r mod 36) = characters ! (r mod 36)"
    by (rule nth_take) simp
  with nth_mem [OF lt] show ?thesis
    by (simp only:)
qed

lemma random_name_set: "set (fst (random_name g)) \<subseteq> set (take 36 characters)"
  unfolding random_name_eq fst_conv set_map
  by (rule image_subsetI) (rule characters_nth_mod)

lemma take_36_characters: "take 36 characters = ''abcdefghijklmnopqrstuvwxyz0123456789''"
  by (simp add: characters_def)

lemma underscore_not_taken: "CHR ''_'' \<notin> set (take 36 characters)"
  by (simp add: take_36_characters)

lemma create_tries_step:
  "itry < 100 \<Longrightarrow>
   create_tries F mp prefix path itry w g =
     (if mp < length path + length path_separator + length prefix + 8 + 1
      then create_tries F mp prefix path (Suc itry) w (snd (random_name g))
      else
        (case directory_exists F (path @ path_separator @ prefix @ fst (random_name g)) w of
           Inl e \<Rightarrow> (Inl e, w, snd (random_name g))
         | Inr True \<Rightarrow> create_tries F mp prefix path (Suc itry) w (snd (random_name g))
         | Inr False \<Rightarrow>
             (case make_directory F (path @ path_separator @ prefix @ fst (random_name g)) w of
                (Inl e, w') \<Rightarrow> (Inl e, w', snd (random_name g))
              | (Inr True, w') \<Rightarrow>
                  (Inr (Some (path @ path_separator @ prefix @ fst (random_name g))), w',
                   snd (random_name g))
              | (Inr False, w') \<Rightarrow>
                  create_tries F mp prefix path (Suc itry) w' (snd (random_name g)))))"
proof -
  assume lt: "itry < 100"
  obtain a b where ab: "random_name g = (a, b)"
    by (cases "random_name g")
  with random_name_length [of g] have len: "length a = 8"
    by simp
  show ?thesis
    apply (subst create_tries.simps)
    unfolding ab fst_conv snd_conv prod.case Let_def len
    using lt by simp
qed

lemma create_tries_done:
  "\<not> itry < 100 \<Longrightarrow> create_tries F mp prefix path itry w g = (Inr None, w, g)"
  by (subst create_tries.simps) simp



lemma create_tries_seq:
  "rand_seq (snd (snd (create_tries F mp prefix path itry w g))) = rand_seq g"
proof (induction "100 - itry" arbitrary: itry w g)
  case 0
  then show ?case by (simp add: create_tries_done)
next
  case (Suc n)
  then have lt: "itry < 100" and n: "n = 100 - Suc itry" by simp_all
  have IH: "rand_seq (snd (snd (create_tries F mp prefix path (Suc itry) w' (snd (random_name g)))))
      = rand_seq g" for w'
    using Suc.hyps(1) [OF n, of w' "snd (random_name g)"] by (simp add: random_name_seq)
  show ?case
    unfolding create_tries_step [OF lt] using IH
    by (auto simp add: random_name_seq split: sum.splits bool.splits prod.splits)
qed

lemma create_tries_made:
  "create_tries F mp prefix path itry w g = (Inr (Some p), w', g') \<Longrightarrow>
   \<exists>name w0. p = path @ path_separator @ prefix @ name \<and> length name = 8 \<and>
     set name \<subseteq> set (take 36 characters) \<and>
     directory_exists F p w0 = Inr False \<and> make_directory F p w0 = (Inr True, w')"
proof (induction "100 - itry" arbitrary: itry w g)
  case 0
  then show ?case by (simp add: create_tries_done)
next
  case (Suc n)
  then have lt: "itry < 100" and n: "n = 100 - Suc itry" by simp_all
  note IH = Suc.hyps(1) [OF n]
  let ?p = "path @ path_separator @ prefix @ fst (random_name g)"
  have here: "\<exists>name w0. ?p = path @ path_separator @ prefix @ name \<and> length name = 8 \<and>
     set name \<subseteq> set (take 36 characters) \<and>
     directory_exists F ?p w0 = Inr False \<and> make_directory F ?p w0 = (Inr True, w')"
    if "directory_exists F ?p w = Inr False" "make_directory F ?p w = (Inr True, w')"
    using that random_name_length [of g] random_name_set [of g] by blast
  show ?case
    using Suc.prems IH here unfolding create_tries_step [OF lt]
    by (auto split: sum.splits bool.splits prod.splits if_splits simp del: set_simps)
qed

subsection \<open>The loops of create\<close>



lemma create_paths_seq:
  "rand_seq (snd (snd (create_paths F mp prefix paths w g))) = rand_seq g"
proof (induction paths arbitrary: w g)
  case Nil
  show ?case by simp
next
  case (Cons path paths)
  obtain r w1 g1 where t: "create_tries F mp prefix path 0 w g = (r, w1, g1)"
    by (cases "create_tries F mp prefix path 0 w g")
  have p1: "rand_seq g1 = rand_seq g"
    using create_tries_seq [of F mp prefix path 0 w g] by (simp add: t)
  show ?case
    using Cons.IH [of w1 g1] p1 by (simp add: t split: sum.splits option.splits)
qed

lemma create_paths_made:
  "create_paths F mp prefix paths w g = (Inr (Some p), w', g') \<Longrightarrow>
   \<exists>path name w0. path \<in> set paths \<and> p = path @ path_separator @ prefix @ name \<and>
     length name = 8 \<and> set name \<subseteq> set (take 36 characters) \<and>
     directory_exists F p w0 = Inr False \<and> make_directory F p w0 = (Inr True, w')"
proof (induction paths arbitrary: w g)
  case Nil
  then show ?case by simp
next
  case (Cons path paths)
  obtain r w1 g1 where t: "create_tries F mp prefix path 0 w g = (r, w1, g1)"
    by (cases "create_tries F mp prefix path 0 w g")
  show ?case
  proof (cases r)
    case (Inl e)
    with Cons.prems t show ?thesis by simp
  next
    case (Inr o1)
    show ?thesis
    proof (cases o1)
      case None
      with Cons.prems t Inr have "create_paths F mp prefix paths w1 g1 = (Inr (Some p), w', g')"
        by simp
      from Cons.IH [OF this] show ?thesis by auto
    next
      case (Some q)
      with Cons.prems t Inr have "create_tries F mp prefix path 0 w g = (Inr (Some p), w', g')"
        by simp
      from create_tries_made [OF this] show ?thesis by auto
    qed
  qed
qed

subsection \<open>The symbols of a generated name\<close>

text \<open>
  Claim C2. The generated name has exactly 8 characters, each drawn from the full alphabet
  \<^verbatim>\<open>[a-z0-9_]\<close>, so that the underscore can occur at every position. The code reads
  \<^verbatim>\<open>characters[randrange(0, 36)]\<close>, and \<^verbatim>\<open>randrange(0, 36)\<close> is \<^verbatim>\<open>rand() % 36\<close>: whatever
  \<^verbatim>\<open>rand()\<close> returns, the name has 8 characters, each among the first 36 of \<open>characters\<close>,
  and the underscore, at index 36, is in no name. Where \<^verbatim>\<open>rand()\<close> returns 36 the name is
  \<^verbatim>\<open>aaaaaaaa\<close>.
\<close>

theorem random_name_never_underscore:
  "length (fst (random_name g)) = 8
   \<and> set (fst (random_name g)) \<subseteq> set (take 36 characters)
   \<and> CHR ''_'' \<notin> set (fst (random_name g))
   \<and> characters ! 36 = CHR ''_''
   \<and> fst (random_name (rand_const 36)) = ''aaaaaaaa''"
proof -
  have "CHR ''_'' \<notin> set (fst (random_name g))"
    using random_name_set [of g] underscore_not_taken by blast
  moreover have "characters ! 36 = CHR ''_''"
    by (simp add: characters_def)
  moreover have "fst (random_name (rand_const 36)) = ''aaaaaaaa''"
    by (simp add: random_name_eq rand_const_def characters_def)
  ultimately show ?thesis
    using random_name_length [of g] random_name_set [of g] by blast
qed

text \<open>
  What does hold of the name of a created directory: it is a base path of the list, the
  separator, the prefix, and 8 characters among the first 36 of \<open>characters\<close>.
\<close>

lemma create_in_leaf_name:
  assumes "create_in F mp paths h w g = (Inr True, h', w', g')"
  shows "\<exists>path name. path \<in> set paths \<and> d_path h' = path @ path_separator @ d_prefix h @ name
    \<and> length name = 8 \<and> set name \<subseteq> set (take 36 characters)"
proof -
  from assms obtain p where made: "create_paths F mp (d_prefix h) paths w g = (Inr (Some p), w', g')"
    and h': "h' = h\<lparr>d_path := p, d_good := True\<rparr>"
    by (auto simp add: create_in_def split: prod.splits sum.splits option.splits)
  from create_paths_made [OF made] h' show ?thesis
    by auto
qed

subsection \<open>The run\<close>

lemma paths_to_try_run:
  "paths_to_try (env_one ''TEMP'' ''c:'') = [''c:'', ''c:'' @ CHR 0x5C # ''temp'', ''c:'' @ CHR 0x5C # ''tmp'']"
  by (simp add: paths_to_try_def env_one_def)

lemma random_name_run:
  "random_name (rand_const 0) = (''aaaaaaaa'', (rand_const 0)\<lparr>rand_pos := 8\<rparr>)"
  by (simp add: random_name_eq rand_const_def characters_def)

lemma create_tries_run:
  "create_tries mem_fs 260 ''tmp'' ''c:'' 0 tree0 (rand_const 0) =
     (Inr (Some tmp_path), (tmp_path, Dir) # tree0, (rand_const 0)\<lparr>rand_pos := 8\<rparr>)"
  by (simp add: create_tries_step random_name_run path_separator_def directory_exists_def
      make_directory_def mem_fs_def tree0_def tmp_path_def)

lemma create_run:
  "create mem_fs 260 (env_one ''TEMP'' ''c:'') (directory_ctor ''tmp'') tree0 (rand_const 0) =
     (Inr True, tmp_handle, (tmp_path, Dir) # tree0, (rand_const 0)\<lparr>rand_pos := 8\<rparr>)"
  by (simp add: create_def create_in_def paths_to_try_run create_tries_run directory_ctor_def
      tmp_handle_def)

lemma remove_run:
  "remove mem_fs tmp_handle ((tmp_path, Dir) # tree0) = (Inr True, tmp_handle, tree0)"
  by (simp add: remove_def tmp_handle_def directory_exists_def get_files_in_directory_def
      remove_directory_def mem_fs_def tree0_def tmp_path_def entry_of_def below_def
      path_separator_def)

lemma remove_again_run:
  "remove mem_fs tmp_handle tree0 = (Inr False, tmp_handle, tree0)"
  by (simp add: remove_def tmp_handle_def directory_exists_def mem_fs_def tree0_def tmp_path_def)

subsection \<open>remove\<close>

lemma remove_handle: "fst (snd (remove F h w)) = h"
  by (simp add: remove_def split: sum.splits bool.splits prod.splits)

lemma remove_true_good: "fst (remove F h w) = Inr True \<Longrightarrow> d_good h"
  by (simp add: remove_def split: if_splits)

lemma remove_gone:
  "directory_exists F (d_path h) w = Inr False \<Longrightarrow> remove F h w = (Inr False, h, w)"
  by (simp add: remove_def)

lemma remove_directory_eq:
  "remove_directory F p w = (Inr b, w') \<Longrightarrow> \<exists>n. remove_all F p w = (Inr n, w') \<and> b = (n \<noteq> 0)"
  by (auto simp add: remove_directory_def split: prod.splits sum.splits)

lemma mem_fs_remove_all_effective:
  "\<forall>p w n w'. remove_all mem_fs p w = (Inr n, w') \<longrightarrow> is_directory mem_fs p w' = Inr False"
proof (intro allI impI)
  fix p w n w'
  assume "remove_all mem_fs p w = (Inr n, w')"
  then have w': "w' = filter (\<lambda>(q, k). \<not> (q = p \<or> below p q)) w"
    by (simp add: mem_fs_def)
  have "p \<notin> fst ` set w'"
    unfolding w' by auto
  then have "map_of w' p = None"
    by (simp add: map_of_eq_None_iff)
  then show "is_directory mem_fs p w' = Inr False"
    by (simp add: mem_fs_def)
qed

lemma remove_second:
  assumes eff: "\<forall>p w n w'. remove_all F p w = (Inr n, w') \<longrightarrow> is_directory F p w' = Inr False"
    and first: "remove F h v = (Inr r, h1, v1)"
  shows "h1 = h \<and> (d_good h \<longrightarrow> directory_exists F (d_path h) v1 = Inr False)"
proof -
  from first remove_handle [of F h v] have h1: "h1 = h"
    by simp
  have "directory_exists F (d_path h) v1 = Inr False" if good: "d_good h"
  proof (cases "directory_exists F (d_path h) v")
    case (Inl e)
    with first good show ?thesis by (simp add: remove_def)
  next
    case (Inr d)
    show ?thesis
    proof (cases d)
      case False
      with first good Inr show ?thesis by (simp add: remove_def)
    next
      case True
      with first good Inr obtain w1 b where "remove_directory F (d_path h) w1 = (Inr b, v1)"
        by (auto simp add: remove_def split: sum.splits prod.splits)
      from remove_directory_eq [OF this] obtain n where "remove_all F (d_path h) w1 = (Inr n, v1)"
        by blast
      with eff show ?thesis
        by (simp add: directory_exists_def)
    qed
  qed
  with h1 show ?thesis by simp
qed

text \<open>
  Claim C1, as the code has it. \<^verbatim>\<open>remove()\<close> assigns no member. When it returns \<^verbatim>\<open>true\<close>,
  the handle is as before: \<^verbatim>\<open>good()\<close> is still true and \<^verbatim>\<open>path()\<close> still the path. On a
  filesystem where a recursive removal that returns leaves no directory at its path, a
  second \<^verbatim>\<open>remove()\<close> returns \<^verbatim>\<open>false\<close> and leaves the filesystem alone.
\<close>

theorem remove_leaves_handle:
  assumes first: "remove F h w = (Inr True, h', w')"
  shows "h' = h \<and> d_good h' \<and> d_path h' = d_path h
    \<and> ((\<forall>p u n u'. remove_all F p u = (Inr n, u') \<longrightarrow> is_directory F p u' = Inr False) \<longrightarrow>
         remove F h' w' = (Inr False, h', w'))"
proof -
  from first remove_handle [of F h w] have h: "h' = h"
    by simp
  from first remove_true_good [of F h w] have good: "d_good h"
    by simp
  have "remove F h' w' = (Inr False, h', w')"
    if eff: "(\<forall>p u n u'. remove_all F p u = (Inr n, u') \<longrightarrow> is_directory F p u' = Inr False)"
  proof -
    from remove_second [OF eff first] good
    have "directory_exists F (d_path h) w' = Inr False"
      by simp
    from remove_gone [OF this] h show ?thesis
      by simp
  qed
  with h good show ?thesis
    by simp
qed

theorem remove_leaves_handle_witness:
  "remove mem_fs tmp_handle ((tmp_path, Dir) # tree0) = (Inr True, tmp_handle, tree0)
   \<and> d_good tmp_handle \<and> d_path tmp_handle = tmp_path
   \<and> remove mem_fs tmp_handle tree0 = (Inr False, tmp_handle, tree0)"
proof -
  have path: "d_path tmp_handle = tmp_path"
    by (simp add: tmp_handle_def)
  from remove_leaves_handle [OF remove_run] mem_fs_remove_all_effective
  have "d_good tmp_handle \<and> remove mem_fs tmp_handle tree0 = (Inr False, tmp_handle, tree0)"
    by blast
  with path show ?thesis
    by (simp add: remove_run)
qed

text \<open>
  Claim C1 as stated (after a successful \<^verbatim>\<open>remove()\<close>, \<^verbatim>\<open>good()\<close> is false and \<^verbatim>\<open>path()\<close>
  empty) fails on the run: \<^verbatim>\<open>create()\<close> makes the directory, \<^verbatim>\<open>remove()\<close> returns \<^verbatim>\<open>true\<close>, and
  the handle is still good, with its path.
\<close>

theorem remove_keeps_good_counterexample:
  "create mem_fs 260 (env_one ''TEMP'' ''c:'') (directory_ctor ''tmp'') tree0 (rand_const 0) =
     (Inr True, tmp_handle, (tmp_path, Dir) # tree0, (rand_const 0)\<lparr>rand_pos := 8\<rparr>)
   \<and> remove mem_fs tmp_handle ((tmp_path, Dir) # tree0) = (Inr True, tmp_handle, tree0)
   \<and> d_good tmp_handle \<and> d_path tmp_handle \<noteq> []"
  by (simp add: create_run remove_run) (simp add: tmp_handle_def tmp_path_def)

subsection \<open>create on a valid handle\<close>

text \<open>
  Claim C6. On a handle that is valid (it has a path and \<^verbatim>\<open>_good\<close> is set), \<^verbatim>\<open>create()\<close>
  returns \<^verbatim>\<open>false\<close>, throws nothing, and leaves the handle, the filesystem and the random
  source as they are.
\<close>

theorem create_on_valid_handle:
  "d_path h \<noteq> [] \<Longrightarrow> d_good h \<Longrightarrow> create F mp env h w g = (Inr False, h, w, g)"
  by (simp add: create_def)

theorem create_on_valid_handle_witness:
  "d_path tmp_handle \<noteq> [] \<and> d_good tmp_handle
   \<and> create mem_fs 260 (env_one ''TEMP'' ''c:'') tmp_handle ((tmp_path, Dir) # tree0)
        ((rand_const 0)\<lparr>rand_pos := 8\<rparr>)
      = (Inr False, tmp_handle, (tmp_path, Dir) # tree0, (rand_const 0)\<lparr>rand_pos := 8\<rparr>)"
proof -
  have p: "d_path tmp_handle \<noteq> []" and g: "d_good tmp_handle"
    by (simp_all add: tmp_handle_def tmp_path_def)
  from create_on_valid_handle [OF p g] p g show ?thesis
    by simp
qed

subsection \<open>The invariant of a directory handle\<close>

lemma create_in_invariant:
  assumes "d_good h \<longrightarrow> d_path h \<noteq> []"
  shows "d_good (fst (snd (create_in F mp paths h w g)))
    \<longrightarrow> d_path (fst (snd (create_in F mp paths h w g))) \<noteq> []"
proof -
  obtain r w' g' where c: "create_paths F mp (d_prefix h) paths w g = (r, w', g')"
    by (cases "create_paths F mp (d_prefix h) paths w g")
  show ?thesis
  proof (cases r)
    case (Inl e)
    with c assms show ?thesis by (simp add: create_in_def)
  next
    case (Inr o1)
    show ?thesis
    proof (cases o1)
      case None
      with c Inr assms show ?thesis by (simp add: create_in_def)
    next
      case (Some p)
      with c Inr have "create_paths F mp (d_prefix h) paths w g = (Inr (Some p), w', g')"
        by simp
      from create_paths_made [OF this] obtain path name where
        "p = path @ path_separator @ d_prefix h @ name" "length name = 8"
        by blast
      then have "p \<noteq> []"
        by (auto simp add: path_separator_def)
      with c Inr Some show ?thesis by (simp add: create_in_def)
    qed
  qed
qed

lemma create_invariant:
  assumes "d_good h \<longrightarrow> d_path h \<noteq> []"
  shows "d_good (fst (snd (create F mp env h w g)))
    \<longrightarrow> d_path (fst (snd (create F mp env h w g))) \<noteq> []"
  using assms create_in_invariant [OF assms, of F mp "paths_to_try env" w g]
  by (simp add: create_def)

lemma directory_calls_invariant:
  "(d_good h \<longrightarrow> d_path h \<noteq> []) \<Longrightarrow>
   d_good (fst (directory_calls F mp calls h w g))
     \<longrightarrow> d_path (fst (directory_calls F mp calls h w g)) \<noteq> []"
proof (induction calls arbitrary: h w g)
  case Nil
  then show ?case by simp
next
  case (Cons c calls)
  show ?case
  proof (cases c)
    case (Create env)
    obtain r h' w' g' where cr: "create F mp env h w g = (r, h', w', g')"
      by (cases "create F mp env h w g")
    from create_invariant [OF Cons.prems, of F mp env w g] cr
    have "d_good h' \<longrightarrow> d_path h' \<noteq> []" by simp
    from Cons.IH [OF this] show ?thesis by (simp add: Create cr)
  next
    case Remove
    obtain r h' w' where rm: "remove F h w = (r, h', w')"
      by (cases "remove F h w")
    with remove_handle [of F h w] have "h' = h" by simp
    with Cons.prems have "d_good h' \<longrightarrow> d_path h' \<noteq> []" by simp
    from Cons.IH [OF this] show ?thesis by (simp add: Remove rm)
  qed
qed

text \<open>
  Claim C10. After construction and any calls of \<^verbatim>\<open>create()\<close> and \<^verbatim>\<open>remove()\<close>, in any order
  and under any environment, filesystem and random source: if \<^verbatim>\<open>good()\<close> is true then
  \<^verbatim>\<open>path()\<close> is not empty.
\<close>

theorem directory_good_has_path:
  "d_good (fst (directory_calls F mp calls (directory_ctor prefix) w g))
     \<longrightarrow> d_path (fst (directory_calls F mp calls (directory_ctor prefix) w g)) \<noteq> []"
  by (rule directory_calls_invariant) (simp add: directory_ctor_def)

theorem directory_good_has_path_witness:
  "d_good (fst (directory_calls mem_fs 260 [Create (env_one ''TEMP'' ''c:''), Remove]
             (directory_ctor ''tmp'') tree0 (rand_const 0)))
   \<and> d_path (fst (directory_calls mem_fs 260 [Create (env_one ''TEMP'' ''c:''), Remove]
             (directory_ctor ''tmp'') tree0 (rand_const 0))) \<noteq> []"
proof -
  have run: "fst (directory_calls mem_fs 260 [Create (env_one ''TEMP'' ''c:''), Remove]
             (directory_ctor ''tmp'') tree0 (rand_const 0)) = tmp_handle"
    by (simp add: create_run remove_run)
  have good: "d_good tmp_handle"
    by (simp add: tmp_handle_def)
  from directory_good_has_path [of mem_fs 260 "[Create (env_one ''TEMP'' ''c:''), Remove]"
      "''tmp''" tree0 "rand_const 0"] run good
  show ?thesis by simp
qed

subsection \<open>The file handle\<close>

lemma file_remove_not_good: "\<not> f_good h \<Longrightarrow> file_remove F h w = (Inr False, h, w)"
  by (simp add: file_remove_def)

lemma file_removes_not_good:
  "\<not> f_good h \<Longrightarrow> file_removes F n h w = (replicate n (Inr False), h, w)"
  by (induction n) (simp_all add: file_remove_not_good)

lemma file_remove_handle: "fst (snd (file_remove F h w)) = h"
  by (simp add: file_remove_def split: sum.splits bool.splits prod.splits)

text \<open>
  Claim C9. A \<^verbatim>\<open>file\<close> or \<^verbatim>\<open>scoped_file\<close> is constructed with \<^verbatim>\<open>_good\<close> false; \<^verbatim>\<open>remove()\<close>,
  the only member function that is not \<^verbatim>\<open>const\<close>, returns the handle as it was. So every
  \<^verbatim>\<open>remove()\<close> in the life of the handle returns \<^verbatim>\<open>false\<close> and leaves the filesystem alone,
  and so do both destructors.
\<close>

theorem file_never_good:
  "\<not> f_good (file_ctor prefix) \<and> \<not> f_good (scoped_file_ctor prefix)
   \<and> fst (snd (file_remove F h w)) = h
   \<and> file_removes F n (file_ctor prefix) w = (replicate n (Inr False), file_ctor prefix, w)
   \<and> file_removes F n (scoped_file_ctor prefix) w
        = (replicate n (Inr False), scoped_file_ctor prefix, w)
   \<and> file_dtor F (file_ctor prefix) w = (Inr (), w)
   \<and> scoped_file_dtor F (scoped_file_ctor prefix) w = (Inr (), w)"
proof -
  have ng: "\<not> f_good (file_ctor prefix)"
    by (simp add: file_ctor_def)
  have "file_dtor F (file_ctor prefix) w = (Inr (), w)"
    using ng by (simp add: file_dtor_def)
  moreover have "scoped_file_dtor F (scoped_file_ctor prefix) w = (Inr (), w)"
    using ng by (simp add: scoped_file_dtor_def scoped_file_ctor_def file_remove_not_good file_dtor_def)
  ultimately show ?thesis
    using ng file_removes_not_good [OF ng, of F n w] file_remove_handle [of F h w]
    by (simp add: scoped_file_ctor_def)
qed

text \<open>
  Claim C3, as the code has it. The constructor of \<^verbatim>\<open>scoped_file\<close> only passes the prefix
  to the constructor of \<^verbatim>\<open>file\<close>, which stores it: it makes no call of the filesystem, and
  afterwards \<^verbatim>\<open>good()\<close> is false and \<^verbatim>\<open>path()\<close> empty.
\<close>

theorem scoped_file_ctor_creates_nothing:
  "scoped_file_ctor prefix = \<lparr>f_good = False, f_prefix = prefix, f_path = []\<rparr>
   \<and> \<not> f_good (scoped_file_ctor prefix) \<and> f_path (scoped_file_ctor prefix) = []
   \<and> f_prefix (scoped_file_ctor prefix) = prefix"
  by (simp add: scoped_file_ctor_def file_ctor_def)

text \<open>
  Claim C3 as stated (after construction the path and the validity flag are populated)
  fails for the prefix \<^verbatim>\<open>tmp\<close>.
\<close>

theorem scoped_file_ctor_counterexample:
  "\<not> f_good (scoped_file_ctor ''tmp'') \<and> f_path (scoped_file_ctor ''tmp'') = []"
  by (simp add: scoped_file_ctor_def file_ctor_def)

subsection \<open>The candidate base paths\<close>

text \<open>
  Claim C5, as the code has it. The candidates are, in this order: the values of \<^verbatim>\<open>TEMP\<close>,
  \<^verbatim>\<open>TMP\<close> and \<^verbatim>\<open>TMPDIR\<close>, each when the variable is set (an empty value too); the system
  roots, from \<^verbatim>\<open>SYSTEMROOT\<close> and \<^verbatim>\<open>USERPROFILE\<close> when set and the two fixed paths; and last
  the value of \<^verbatim>\<open>CD\<close> when set.
\<close>

theorem paths_to_try_order:
  "paths_to_try env =
     (case env ''TEMP'' of None \<Rightarrow> [] | Some p \<Rightarrow> [p])
     @ (case env ''TMP'' of None \<Rightarrow> [] | Some p \<Rightarrow> [p])
     @ (case env ''TMPDIR'' of None \<Rightarrow> [] | Some p \<Rightarrow> [p])
     @ (case env ''SYSTEMROOT'' of None \<Rightarrow> [] | Some p \<Rightarrow> [p @ CHR 0x5C # ''Temp''])
     @ (case env ''USERPROFILE'' of None \<Rightarrow> []
        | Some p \<Rightarrow> [p @ CHR 0x5C # ''AppData'' @ CHR 0x5C # ''Local'' @ CHR 0x5C # ''Temp''])
     @ [''c:'' @ CHR 0x5C # ''temp'', ''c:'' @ CHR 0x5C # ''tmp'']
     @ (case env ''CD'' of None \<Rightarrow> [] | Some p \<Rightarrow> [p])"
  by (simp add: paths_to_try_def split: option.splits)

text \<open>
  Claim C5 as stated (a variable contributes only if it is set and not empty) fails where
  \<^verbatim>\<open>TEMP\<close> is set to the empty string: the empty path is the first candidate.
\<close>

theorem paths_to_try_empty_variable_counterexample:
  "env_one ''TEMP'' [] ''TEMP'' = Some []
   \<and> paths_to_try (env_one ''TEMP'' []) = [[], ''c:'' @ CHR 0x5C # ''temp'', ''c:'' @ CHR 0x5C # ''tmp'']"
  by (simp add: paths_to_try_def env_one_def)

subsection \<open>What remove does and what it returns\<close>













subsection \<open>The attempt budget\<close>

lemma random_name_snd: "snd (random_name g) = g\<lparr>rand_pos := rand_pos g + 8\<rparr>"
  by (simp add: random_name_eq)

lemma create_tries_too_long:
  "mp < length path + length path_separator + length prefix + 8 + 1 \<Longrightarrow>
   create_tries F mp prefix path itry w g =
     (Inr None, w, g\<lparr>rand_pos := rand_pos g + 8 * (100 - itry)\<rparr>)"
proof (induction "100 - itry" arbitrary: itry g)
  case 0
  then show ?case by (simp add: create_tries_done)
next
  case (Suc n)
  then have lt: "itry < 100" and n: "n = 100 - Suc itry" by simp_all
  have "8 + 8 * (100 - Suc itry) = 8 * (100 - itry)"
    using lt by simp
  then show ?case
    using Suc.hyps(1) [OF n Suc.prems, of "snd (random_name g)"] Suc.prems
    by (simp add: create_tries_step [OF lt] random_name_snd add.assoc)
qed

lemma create_paths_too_long:
  "\<forall>path \<in> set paths. mp < length path + length path_separator + length prefix + 8 + 1 \<Longrightarrow>
   create_paths F mp prefix paths w g =
     (Inr None, w, g\<lparr>rand_pos := rand_pos g + 800 * length paths\<rparr>)"
proof (induction paths arbitrary: g)
  case Nil
  show ?case by simp
next
  case (Cons path paths)
  then have here: "mp < length path + length path_separator + length prefix + 8 + 1"
    and rest: "\<forall>path \<in> set paths. mp < length path + length path_separator + length prefix + 8 + 1"
    by simp_all
  show ?case
    by (simp add: create_tries_too_long [OF here] Cons.IH [OF rest] add.assoc)
qed




lemma create_in_too_long_run:
  "create_in mem_fs 0 (paths_to_try (env_one ''TEMP'' ''c:'')) (directory_ctor ''tmp'') tree0 (rand_const 0)
     = (Inr False, directory_ctor ''tmp'', tree0, (rand_const 0)\<lparr>rand_pos := 2400\<rparr>)"
proof -
  have "create_paths mem_fs 0 ''tmp'' (paths_to_try (env_one ''TEMP'' ''c:'')) tree0 (rand_const 0)
     = (Inr None, tree0, (rand_const 0)\<lparr>rand_pos := rand_pos (rand_const 0)
          + 800 * length (paths_to_try (env_one ''TEMP'' ''c:''))\<rparr>)"
    by (rule create_paths_too_long) simp
  then show ?thesis
    by (simp add: create_in_def directory_ctor_def paths_to_try_run rand_const_def)
qed



subsection \<open>The scoped directory\<close>








subsection \<open>A failed construction, a throwing construction, a throwing destruction\<close>











end
